theory Spec2Isabelle
  imports Main "HOL-Library.Word" "HOL-Library.Signed_Division"
begin

unbundle bit_operations_syntax

section \<open>Data model of package rgb75\<close>

text \<open>
  The driver runs under TinyGo on 32-bit microcontrollers, where Go's \<open>int\<close> is a
  32-bit two's complement integer: it is a \<open>32 word\<close> here, compared with the signed
  orders \<open>\<le>s\<close> and \<open><s\<close> and read with \<open>sint\<close>.  \<open>uint8\<close>, \<open>int16\<close> and \<open>uint32\<close>
  are words of their width; \<open>machine.Pin\<close> is a \<open>uint8\<close>.
\<close>

type_synonym go_int = "32 word"
type_synonym Pin = "8 word"

text \<open>The two errors of the package.\<close>

datatype error = ErrInvalidDataPins | ErrInvalidHeight

text \<open>The run-time panics of Go that the code can reach.\<close>

datatype panic = IndexOutOfRange | MakeSliceLenOutOfRange | NegativeShiftAmount

text \<open>\<open>color.RGBA\<close> of the Go standard library: four 8-bit channels.\<close>

record RGBA =
  col_R :: "8 word"
  col_G :: "8 word"
  col_B :: "8 word"
  col_A :: "8 word"

record Config =
  Width :: go_int
  Height :: go_int
  ColorDepth :: "8 word"
  oneAddrPort :: bool
  clkDataPort :: bool
  numAddrRows :: go_int
  maxHeight :: go_int

record rgbPins =
  pin_r :: Pin
  pin_g :: Pin
  pin_b :: Pin

record dataPins =
  up :: rgbPins
  lo :: rgbPins

record rowPlane =
  frame :: go_int
  yPr :: go_int
  yUp :: go_int
  yLo :: go_int
  bit_i :: go_int
  cyc :: "32 word"

text \<open>
  Package \<open>native\<close> (the interface \<open>Hub75\<close> and its value \<open>HUB75\<close>) is not part of
  the sources at hand.  Its pure query \<open>GetPinGroupAlignment\<close> is a parameter of the
  model, carried in the device as field \<open>hub\<close>; its other methods and the methods of
  \<open>machine.Pin\<close> only act on the hardware, and every call of one is logged as an
  \<open>event\<close>, in order, in field \<open>hw\<close>.
\<close>

record Hub75 =
  GetPinGroupAlignment :: "Pin list \<Rightarrow> bool \<times> 8 word"

datatype event =
    HubSetPins "Pin list" Pin "Pin list"
  | HubInitTimer
  | HubPauseTimer
  | HubResumeTimer "32 word" "32 word"
  | HubSetRow go_int
  | HubClkRgb bool bool bool bool bool bool
  | HubSetRgb bool bool bool bool bool bool
  | HubSetRgbMask "32 word"
  | PinConfigureOutput Pin
  | PinSet Pin bool

record Device =
  cfg :: Config
  hub :: Hub75
  oen :: Pin
  lat :: Pin
  clk :: Pin
  rgb :: dataPins
  row :: "Pin list"
  buf :: "RGBA list list"
  pos :: rowPlane
  val :: "32 word"
  hw :: "event list"

definition DefaultWidth :: go_int where
  "DefaultWidth = 64"

definition DefaultHeight :: go_int where
  "DefaultHeight = 32"

definition DefaultColorDepth :: "8 word" where
  "DefaultColorDepth = 4"

definition bitPeriod :: "32 word" where
  "bitPeriod = 2000"

section \<open>Go primitives used by the driver\<close>

text \<open>Signed division of \<open>int\<close> truncates towards zero.\<close>

definition go_div :: "go_int \<Rightarrow> go_int \<Rightarrow> go_int" where
  "go_div a c = word_of_int (sint a sdiv sint c)"

text \<open>Indexing a slice with a signed integer panics outside \<open>[0, len)\<close>.\<close>

definition slice_at :: "'a list \<Rightarrow> 'l::len word \<Rightarrow> panic + 'a" where
  "slice_at xs i =
     (if 0 \<le> sint i \<and> sint i < int (length xs) then Inr (xs ! nat (sint i))
      else Inl IndexOutOfRange)"

definition slice_set :: "'a list \<Rightarrow> 'l::len word \<Rightarrow> 'a \<Rightarrow> panic + 'a list" where
  "slice_set xs i v =
     (if 0 \<le> sint i \<and> sint i < int (length xs) then Inr (xs[nat (sint i) := v])
      else Inl IndexOutOfRange)"

text \<open>\<open>make([]T, n)\<close> panics on a negative length and fills with the zero value.\<close>

definition make_slice :: "go_int \<Rightarrow> 'a \<Rightarrow> panic + 'a list" where
  "make_slice n z =
     (if n <s 0 then Inl MakeSliceLenOutOfRange else Inr (replicate (nat (sint n)) z))"

text \<open>\<open>1 << n\<close> at type \<open>uint32\<close> with a signed shift count: a negative count panics,
  a count of 32 or more gives 0.\<close>

definition shl1 :: "go_int \<Rightarrow> panic + 32 word" where
  "shl1 n = (if n <s 0 then Inl NegativeShiftAmount else Inr (push_bit (nat (sint n)) 1))"

text \<open>Method \<open>RGBA\<close> of \<open>color.RGBA\<close> (Go standard library): each channel \<open>c\<close> is
  widened to \<open>uint32\<close> and becomes \<open>c | c << 8\<close>.\<close>

definition widen_channel :: "8 word \<Rightarrow> 32 word" where
  "widen_channel c = ucast c OR push_bit 8 (ucast c)"

definition RGBA_RGBA :: "RGBA \<Rightarrow> 32 word \<times> 32 word \<times> 32 word \<times> 32 word" where
  "RGBA_RGBA c =
     (widen_channel (col_R c), widen_channel (col_G c),
      widen_channel (col_B c), widen_channel (col_A c))"

definition transparent_black :: RGBA where
  "transparent_black = \<lparr>col_R = 0, col_G = 0, col_B = 0, col_A = 0\<rparr>"

section \<open>The driver\<close>

definition emit :: "Device \<Rightarrow> event list \<Rightarrow> Device" where
  "emit d es = d\<lparr>hw := hw d @ es\<rparr>"

text \<open>\<open>New\<close>: \<open>h\<close> stands for the global \<open>native.HUB75\<close>.\<close>

definition New :: "Hub75 \<Rightarrow> Pin \<Rightarrow> Pin \<Rightarrow> Pin \<Rightarrow> Pin \<times> Pin \<times> Pin \<times> Pin \<times> Pin \<times> Pin
    \<Rightarrow> Pin list \<Rightarrow> Device" where
  "New h oen_pin lat_pin clk_pin rgb6 rows =
     (case rgb6 of (r1, g1, b1, r2, g2, b2) \<Rightarrow>
       \<lparr>cfg = \<lparr>Width = DefaultWidth, Height = DefaultHeight, ColorDepth = DefaultColorDepth,
               oneAddrPort = False, clkDataPort = False, numAddrRows = 0,
               maxHeight = push_bit (length rows + 1) 1\<rparr>,
        hub = h, oen = oen_pin, lat = lat_pin, clk = clk_pin,
        rgb = \<lparr>up = \<lparr>pin_r = r1, pin_g = g1, pin_b = b1\<rparr>,
               lo = \<lparr>pin_r = r2, pin_g = g2, pin_b = b2\<rparr>\<rparr>,
        row = rows, buf = [],
        pos = \<lparr>frame = 0, yPr = 0, yUp = 0, yLo = 0, bit_i = 0, cyc = 0\<rparr>,
        val = 0,
        hw = [HubSetPins [r1, g1, b1, r2, g2, b2] clk_pin rows]\<rparr>)"

text \<open>\<open>Size\<close>: the conversion to \<open>int16\<close> keeps the low 16 bits.\<close>

definition Size :: "Device \<Rightarrow> 16 word \<times> 16 word" where
  "Size d = (ucast (Width (cfg d)), ucast (Height (cfg d)))"

text \<open>\<open>SetPixel\<close>: both index operations are checked by Go and guarded by the code.\<close>

definition SetPixel :: "Device \<Rightarrow> 16 word \<Rightarrow> 16 word \<Rightarrow> RGBA \<Rightarrow> panic + Device" where
  "SetPixel d x y c =
     (if 0 \<le>s y \<and> sint y < int (length (buf d)) then
        (case slice_at (buf d) y of
           Inl p \<Rightarrow> Inl p
         | Inr line \<Rightarrow>
             if 0 \<le>s x \<and> sint x < int (length line) then
               (case slice_set line x c of
                  Inl p \<Rightarrow> Inl p
                | Inr line' \<Rightarrow>
                    (case slice_set (buf d) y line' of
                       Inl p \<Rightarrow> Inl p
                     | Inr buf' \<Rightarrow> Inr (d\<lparr>buf := buf'\<rparr>)))
             else Inr d)
      else Inr d)"

text \<open>\<open>ClearDisplay\<close>: the two \<open>range\<close> loops overwrite every element in place.\<close>

definition ClearDisplay :: "Device \<Rightarrow> Device" where
  "ClearDisplay d = d\<lparr>buf := map (map (\<lambda>_. transparent_black)) (buf d)\<rparr>"

text \<open>\<open>Resume\<close>, \<open>Display\<close> and \<open>Pause\<close>; \<open>elapsed\<close> is the timer position that
  the hardware returns from \<open>PauseTimer\<close>.\<close>

definition Resume :: "Device \<Rightarrow> Device" where
  "Resume d = emit d [HubResumeTimer (val d) (cyc (pos d))]"

definition Display :: "Device \<Rightarrow> error option \<times> Device" where
  "Display d = (None, Resume d)"

definition Pause :: "Device \<Rightarrow> 32 word \<Rightarrow> Device" where
  "Pause d elapsed = (emit d [HubPauseTimer])\<lparr>val := elapsed\<rparr>"

text \<open>The six RGB data lines in the order of the connector, and all lines of the
  device in the order in which \<open>Configure\<close> and \<open>initialize\<close> walk through them.\<close>

definition data_pins :: "Device \<Rightarrow> Pin list" where
  "data_pins d = [pin_r (up (rgb d)), pin_g (up (rgb d)), pin_b (up (rgb d)),
                  pin_r (lo (rgb d)), pin_g (lo (rgb d)), pin_b (lo (rgb d))]"

definition all_pins :: "Device \<Rightarrow> Pin list" where
  "all_pins d = [oen d, lat d, clk d] @ data_pins d @ row d"

text \<open>\<open>initialize\<close>: output disabled and every other line low, \<open>Width\<close> clock
  pulses, one latch pulse, the seed of the scan state, the cleared framebuffer and the
  timer.\<close>

definition initialize :: "Device \<Rightarrow> error option \<times> Device" where
  "initialize d =
     (let d1 = emit d
                 ([PinSet (oen d) True, PinSet (lat d) False, PinSet (clk d) False]
                  @ map (\<lambda>p. PinSet p False) (data_pins d @ row d));
          d2 = emit d1
                 (concat (replicate (nat (sint (Width (cfg d))))
                            [PinSet (clk d) True, PinSet (clk d) False]));
          d3 = emit d2 [PinSet (lat d) True, PinSet (lat d) False];
          d4 = d3\<lparr>pos := \<lparr>frame = 0, yPr = 1, yUp = numAddrRows (cfg d),
                           yLo = Height (cfg d), bit_i = ucast (ColorDepth (cfg d)),
                           cyc = bitPeriod\<rparr>\<rparr>;
          d5 = ClearDisplay d4;
          d6 = emit d5 [HubInitTimer]
      in (None, d6))"

text \<open>The allocation loop of \<open>Configure\<close>: one \<open>make\<close> per row of the outer slice.\<close>

fun alloc_rows :: "RGBA list list \<Rightarrow> go_int \<Rightarrow> panic + RGBA list list" where
  "alloc_rows [] w = Inr []"
| "alloc_rows (l # ls) w =
     (case make_slice w transparent_black of
        Inl p \<Rightarrow> Inl p
      | Inr l' \<Rightarrow>
          (case alloc_rows ls w of
             Inl p \<Rightarrow> Inl p
           | Inr ls' \<Rightarrow> Inr (l' # ls')))"

text \<open>\<open>Configure\<close> writes the fields of \<open>d.cfg\<close> one after the other; \<open>c1\<close> to \<open>c6\<close>
  are the successive values of \<open>d.cfg\<close>.  A return leaves the device with the value
  reached so far.\<close>

definition Configure :: "Device \<Rightarrow> Config \<Rightarrow> panic + (error option \<times> Device)" where
  "Configure d c =
     (let c1 = (cfg d)\<lparr>Width := (if 0 \<noteq> Width c then Width c else DefaultWidth)\<rparr>
      in case (if 0 \<noteq> Height c then
                 (if maxHeight c1 <s Height c then Inl ErrInvalidHeight
                  else Inr (c1\<lparr>Height := Height c\<rparr>))
               else Inr (c1\<lparr>Height := maxHeight c1\<rparr>)) of
           Inl e \<Rightarrow> Inr (Some e, d\<lparr>cfg := c1\<rparr>)
         | Inr c2 \<Rightarrow>
            (let c3 = c2\<lparr>numAddrRows := go_div (Height c2) 2\<rparr>;
                 c4 = c3\<lparr>ColorDepth :=
                        (if 0 \<noteq> ColorDepth c then ColorDepth c else DefaultColorDepth)\<rparr>;
                 c5 = c4\<lparr>oneAddrPort := fst (GetPinGroupAlignment (hub d) (row d))\<rparr>;
                 (same, align) = GetPinGroupAlignment (hub d) (data_pins d)
             in if \<not> same \<or> align = 0 then Inr (Some ErrInvalidDataPins, d\<lparr>cfg := c5\<rparr>)
                else
                 (let c6 = c5\<lparr>clkDataPort :=
                             fst (GetPinGroupAlignment (hub d) [pin_r (up (rgb d)), clk d])\<rparr>;
                      d7 = emit (d\<lparr>cfg := c6\<rparr>) (map PinConfigureOutput (all_pins d))
                  in case make_slice (Height c6) [] of
                       Inl p \<Rightarrow> Inl p
                     | Inr outer \<Rightarrow>
                         (case alloc_rows outer (Width c6) of
                            Inl p \<Rightarrow> Inl p
                          | Inr b \<Rightarrow> Inr (initialize (d7\<lparr>buf := b\<rparr>))))))"

text \<open>\<open>rgbBit\<close>: unchecked by the code, so the index checks of Go decide.\<close>

definition rgbBit :: "Device \<Rightarrow> go_int \<Rightarrow> go_int \<Rightarrow> go_int \<Rightarrow> panic + (bool \<times> bool \<times> bool)" where
  "rgbBit d x y n =
     (case slice_at (buf d) y of
        Inl p \<Rightarrow> Inl p
      | Inr line \<Rightarrow>
          (case slice_at line x of
             Inl p \<Rightarrow> Inl p
           | Inr c \<Rightarrow>
               (case RGBA_RGBA c of (cr, cg, cb, ca) \<Rightarrow>
                  (case shl1 n of
                     Inl p \<Rightarrow> Inl p
                   | Inr m \<Rightarrow> Inr (0 \<noteq> cr AND m, 0 \<noteq> cg AND m, 0 \<noteq> cb AND m)))))"

text \<open>\<open>increment\<close>.\<close>

definition increment :: "Device \<Rightarrow> Device" where
  "increment d =
     (let p1 = (pos d)\<lparr>bit_i := bit_i (pos d) + 1, cyc := cyc (pos d) * 2\<rparr>
      in if ucast (ColorDepth (cfg d)) \<le>s bit_i p1 then
           (let p2 = p1\<lparr>bit_i := 0, cyc := bitPeriod, yUp := yUp p1 + 1, yLo := yLo p1 + 1\<rparr>
            in if numAddrRows (cfg d) \<le>s yUp p2 then
                 d\<lparr>pos := p2\<lparr>yUp := 0, yLo := numAddrRows (cfg d), frame := frame p2 + 1\<rparr>\<rparr>
               else d\<lparr>pos := p2\<rparr>)
         else d\<lparr>pos := p1\<rparr>)"

text \<open>\<open>selectRow\<close>: the loop over the address lines sets line \<open>i\<close> to
  \<open>row & (1 << i) != 0\<close>.\<close>

fun set_row_pins :: "Pin list \<Rightarrow> nat \<Rightarrow> go_int \<Rightarrow> event list" where
  "set_row_pins [] i rw = []"
| "set_row_pins (p # ps) i rw = PinSet p (rw AND push_bit i 1 \<noteq> 0) # set_row_pins ps (Suc i) rw"

definition selectRow :: "Device \<Rightarrow> go_int \<Rightarrow> Device" where
  "selectRow d rw0 =
     (if Height (cfg d) \<le>s rw0 then d
      else
        let rw = (if numAddrRows (cfg d) \<le>s rw0 then rw0 - numAddrRows (cfg d) else rw0)
        in if rw = yPr (pos d) then d
           else
             let d1 = d\<lparr>pos := (pos d)\<lparr>yPr := rw\<rparr>\<rparr>
             in if oneAddrPort (cfg d1) then emit d1 [HubSetRow rw]
                else emit d1 (set_row_pins (row d1) 0 rw))"

text \<open>\<open>handleRow\<close>: the column loop runs \<open>x\<close> from 0 while \<open>x < Width\<close>; its body
  reads the two pixels of column \<open>x\<close> and clocks their six bits out.\<close>

fun shift_columns :: "Device \<Rightarrow> nat list \<Rightarrow> panic + Device" where
  "shift_columns d [] = Inr d"
| "shift_columns d (x # xs) =
     (case rgbBit d (word_of_nat x) (yUp (pos d)) (bit_i (pos d)) of
        Inl p \<Rightarrow> Inl p
      | Inr (r1, g1, b1) \<Rightarrow>
          (case rgbBit d (word_of_nat x) (yLo (pos d)) (bit_i (pos d)) of
             Inl p \<Rightarrow> Inl p
           | Inr (r2, g2, b2) \<Rightarrow>
               if clkDataPort (cfg d) then
                 shift_columns (emit d [HubClkRgb r1 g1 b1 r2 g2 b2]) xs
               else
                 shift_columns
                   (emit d [HubSetRgb r1 g1 b1 r2 g2 b2,
                            PinSet (clk d) True, PinSet (clk d) False,
                            HubSetRgbMask 0]) xs))"

definition handleRow :: "Device \<Rightarrow> panic + Device" where
  "handleRow d =
     (let d1 = emit d [HubPauseTimer, HubResumeTimer 0 (cyc (pos d)),
                       PinSet (oen d) True, PinSet (lat d) True];
          d2 = selectRow d1 (yUp (pos d1));
          d3 = increment d2;
          d4 = emit d3 [PinSet (lat d) False, PinSet (oen d) False]
      in shift_columns d4 [0..<nat (sint (Width (cfg d4)))])"

text \<open>The timer fires \<open>n\<close> times: \<open>n\<close> runs of the interrupt handler in a row.\<close>

fun steps :: "nat \<Rightarrow> Device \<Rightarrow> panic + Device" where
  "steps 0 d = Inr d"
| "steps (Suc n) d = (case steps n d of Inl p \<Rightarrow> Inl p | Inr d' \<Rightarrow> handleRow d')"

section \<open>Observations used to state the properties\<close>

text \<open>Reading pixel \<open>d.buf[y][x]\<close> with Go's index checks.\<close>

definition pixel_at :: "Device \<Rightarrow> go_int \<Rightarrow> go_int \<Rightarrow> panic + RGBA" where
  "pixel_at d x y =
     (case slice_at (buf d) y of Inl p \<Rightarrow> Inl p | Inr line \<Rightarrow> slice_at line x)"

text \<open>The framebuffer has the configured shape: \<open>Height\<close> rows of \<open>Width\<close> pixels.\<close>

definition fb_wf :: "Device \<Rightarrow> bool" where
  "fb_wf d \<longleftrightarrow>
     length (buf d) = nat (sint (Height (cfg d))) \<and>
     (\<forall>l \<in> set (buf d). length l = nat (sint (Width (cfg d))))"

text \<open>A configuration in which every unspecified (zero) field of \<open>c\<close> is replaced by
  its documented default: width 64, colour depth 4, and the maximum height of the
  device.\<close>

definition with_defaults :: "Device \<Rightarrow> Config \<Rightarrow> Config" where
  "with_defaults d c =
     c\<lparr>Width := (if Width c = 0 then 64 else Width c),
       Height := (if Height c = 0 then maxHeight (cfg d) else Height c),
       ColorDepth := (if ColorDepth c = 0 then 4 else ColorDepth c)\<rparr>"

text \<open>The configuration that \<open>Configure\<close> has stored when it reaches the check of
  the data pins: the width, height and colour depth chosen from \<open>c\<close>, the derived
  number of row pairs and the alignment flag of the address lines.\<close>

definition chosen_cfg :: "Device \<Rightarrow> Config \<Rightarrow> Config" where
  "chosen_cfg d c =
     (cfg d)\<lparr>Width := (if 0 \<noteq> Width c then Width c else DefaultWidth),
      Height := (if 0 \<noteq> Height c then Height c else maxHeight (cfg d)),
      numAddrRows := go_div (if 0 \<noteq> Height c then Height c else maxHeight (cfg d)) 2,
      ColorDepth := (if 0 \<noteq> ColorDepth c then ColorDepth c else DefaultColorDepth),
      oneAddrPort := fst (GetPinGroupAlignment (hub d) (row d))\<rparr>"

text \<open>The row-address writes that the interrupt handler issues from state \<open>d\<close>: what
  \<open>selectRow\<close> appends to the hardware log.\<close>

definition addr_events :: "Device \<Rightarrow> event list" where
  "addr_events d = drop (length (hw d)) (hw (selectRow d (yUp (pos d))))"

text \<open>The writes that clock out column \<open>x\<close> for the scan state of \<open>d\<close>: bit \<open>bit_i\<close> of
  the three colour channels of the pixels in rows \<open>yUp\<close> and \<open>yLo\<close>.\<close>

definition column_events :: "Device \<Rightarrow> nat \<Rightarrow> event list" where
  "column_events d x =
     (let n = nat (sint (bit_i (pos d)));
          u = buf d ! nat (sint (yUp (pos d))) ! x;
          l = buf d ! nat (sint (yLo (pos d))) ! x;
          r1 = bit (widen_channel (col_R u)) n;
          g1 = bit (widen_channel (col_G u)) n;
          b1 = bit (widen_channel (col_B u)) n;
          r2 = bit (widen_channel (col_R l)) n;
          g2 = bit (widen_channel (col_G l)) n;
          b2 = bit (widen_channel (col_B l)) n
      in if clkDataPort (cfg d) then [HubClkRgb r1 g1 b1 r2 g2 b2]
         else [HubSetRgb r1 g1 b1 r2 g2 b2, PinSet (clk d) True, PinSet (clk d) False,
               HubSetRgbMask 0])"


text \<open>The scan state at the start of a frame, as \<open>increment\<close> leaves it when it steps
  the frame counter.\<close>

definition frame_start :: "Device \<Rightarrow> bool" where
  "frame_start d \<longleftrightarrow>
     yUp (pos d) = 0 \<and> yLo (pos d) = numAddrRows (cfg d) \<and>
     bit_i (pos d) = 0 \<and> cyc (pos d) = bitPeriod"


text \<open>\<open>s\<close> differs from \<open>d\<close> in the scan state and the hardware log only.\<close>

definition same_panel :: "Device \<Rightarrow> Device \<Rightarrow> bool" where
  "same_panel d s \<longleftrightarrow> s = d\<lparr>pos := pos s, hw := hw s\<rparr>"


section \<open>Concrete devices\<close>

text \<open>A board whose lines all sit on one port, the first at bit offset 1, and one
  whose lines are spread over several ports.\<close>

definition hub_one_port :: Hub75 where
  "hub_one_port = \<lparr>GetPinGroupAlignment = (\<lambda>ps. (True, 1))\<rparr>"

definition hub_spread :: Hub75 where
  "hub_spread = \<lparr>GetPinGroupAlignment = (\<lambda>ps. (False, 0))\<rparr>"

text \<open>A 32 x 16 panel with three row-address lines (\<open>maxHeight = 16\<close>).\<close>

definition panel_new :: Device where
  "panel_new = New hub_one_port 1 2 3 (4, 5, 6, 7, 8, 9) [10, 11, 12]"

definition spread_new :: Device where
  "spread_new = New hub_spread 1 2 3 (4, 5, 6, 7, 8, 9) [10, 11, 12]"

definition panel_cfg :: Config where
  "panel_cfg = \<lparr>Width = 32, Height = 16, ColorDepth = 4, oneAddrPort = False,
                 clkDataPort = False, numAddrRows = 0, maxHeight = 0\<rparr>"

definition zero_cfg :: Config where
  "zero_cfg = \<lparr>Width = 0, Height = 0, ColorDepth = 0, oneAddrPort = False,
                clkDataPort = False, numAddrRows = 0, maxHeight = 0\<rparr>"

definition panel :: Device where
  "panel = (case Configure panel_new panel_cfg of Inr (e, d) \<Rightarrow> d | Inl p \<Rightarrow> panel_new)"

definition orange :: RGBA where
  "orange = \<lparr>col_R = 0xA5, col_G = 0x0F, col_B = 0x80, col_A = 0xFF\<rparr>"


text \<open>A board on which only the lines below pin 10 share a port: the data lines do, the
  row-address lines and the clock line (pin 13) do not.  On it a 2 x 4 panel with two
  row-address lines and colour depth 2, one pixel set, before and after the first
  interrupt.\<close>

definition hub_mixed :: Hub75 where
  "hub_mixed = \<lparr>GetPinGroupAlignment = (\<lambda>ps. (list_all (\<lambda>p. p < 10) ps, 1))\<rparr>"

definition tiny_new :: Device where
  "tiny_new = New hub_mixed 1 2 13 (4, 5, 6, 7, 8, 9) [10, 11]"

definition tiny_cfg :: Config where
  "tiny_cfg = \<lparr>Width = 2, Height = 4, ColorDepth = 2, oneAddrPort = False,
                clkDataPort = False, numAddrRows = 0, maxHeight = 0\<rparr>"

definition tiny :: Device where
  "tiny = (case Configure tiny_new tiny_cfg of
             Inr (e, d) \<Rightarrow> (case SetPixel d 1 3 orange of Inr d' \<Rightarrow> d' | Inl p \<Rightarrow> d)
           | Inl p \<Rightarrow> tiny_new)"

definition tiny_started :: Device where
  "tiny_started = (case handleRow tiny of Inr d \<Rightarrow> d | Inl p \<Rightarrow> tiny)"

text \<open>The same board with a 1 x 2 panel of colour depth 23, after the first interrupt, and
  the state that it has 21 interrupts later: bitplane 21 of row pair 0.\<close>

definition deep_cfg :: Config where
  "deep_cfg = \<lparr>Width = 1, Height = 2, ColorDepth = 23, oneAddrPort = False,
                clkDataPort = False, numAddrRows = 0, maxHeight = 0\<rparr>"

definition deep_started :: Device where
  "deep_started =
     (case Configure tiny_new deep_cfg of
        Inr (e, d) \<Rightarrow> (case handleRow d of Inr d' \<Rightarrow> d' | Inl p \<Rightarrow> d)
      | Inl p \<Rightarrow> tiny_new)"

definition deep_at_21 :: Device where
  "deep_at_21 =
     \<lparr>cfg = \<lparr>Width = 1, Height = 2, ColorDepth = 23, oneAddrPort = False,
             clkDataPort = False, numAddrRows = 1, maxHeight = 8\<rparr>,
      hub = hub_mixed, oen = 1, lat = 2, clk = 13,
      rgb = \<lparr>up = \<lparr>pin_r = 4, pin_g = 5, pin_b = 6\<rparr>,
             lo = \<lparr>pin_r = 7, pin_g = 8, pin_b = 9\<rparr>\<rparr>,
      row = [10, 11], buf = [[transparent_black], [transparent_black]],
      pos = \<lparr>frame = 1, yPr = 0, yUp = 0, yLo = 1, bit_i = 21, cyc = 4194304000\<rparr>,
      val = 0, hw = []\<rparr>"

section \<open>Words, bits and slices\<close>

lemma sint_word_of_nat32:
  "n < 2 ^ 31 \<Longrightarrow> sint (word_of_nat n :: 32 word) = int n"
proof -
  assume a: "n < 2 ^ 31"
  have "sint (word_of_nat n :: 32 word) = signed_take_bit 31 (int n)"
    by transfer simp
  also from a have "\<dots> = int n"
    by (intro signed_take_bit_int_eq_self) auto
  finally show ?thesis by simp
qed

lemma sint_scast_16_32: "sint (scast (x :: 16 word) :: 32 word) = sint x"
  by (simp add: sint_up_scast is_up)

lemma channel_bit:
  "n < 8 \<Longrightarrow> (0 \<noteq> widen_channel c AND push_bit n 1) = bit c n"
proof -
  assume "n < 8"
  then have "bit (widen_channel c) n = bit c n"
    by (auto simp add: widen_channel_def bit_or_iff bit_push_bit_iff bit_ucast_iff)
  then show ?thesis
    by (metis bit_iff_and_push_bit_not_eq_0)
qed

lemma rgbBit_in_range:
  assumes "slice_at (buf d) y = Inr line" and "slice_at line x = Inr c" and "n < 8"
  shows "rgbBit d x y (word_of_nat n) =
           Inr (bit (col_R c) n, bit (col_G c) n, bit (col_B c) n)"
proof -
  from \<open>n < 8\<close> have n: "sint (word_of_nat n :: 32 word) = int n"
    by (simp add: sint_word_of_nat32)
  then have "shl1 (word_of_nat n) = Inr (push_bit n 1)"
    by (simp add: shl1_def word_sless_alt)
  with assms show ?thesis
    by (simp only: rgbBit_def RGBA_RGBA_def sum.case prod.case channel_bit)
qed

lemma SetPixel_in_range:
  assumes "0 \<le> sint y" and "nat (sint y) < length (buf d)"
    and "0 \<le> sint x" and "nat (sint x) < length (buf d ! nat (sint y))"
  shows "SetPixel d x y c =
     Inr (d\<lparr>buf := (buf d)[nat (sint y) := (buf d ! nat (sint y))[nat (sint x) := c]]\<rparr>)"
  using assms by (simp add: SetPixel_def slice_at_def slice_set_def word_sle_eq)

lemma SetPixel_cases:
  "SetPixel d x y c = Inr d \<or>
   (0 \<le> sint y \<and> nat (sint y) < length (buf d) \<and>
    0 \<le> sint x \<and> nat (sint x) < length (buf d ! nat (sint y)) \<and>
    SetPixel d x y c =
      Inr (d\<lparr>buf := (buf d)[nat (sint y) := (buf d ! nat (sint y))[nat (sint x) := c]]\<rparr>))"
  by (auto simp add: SetPixel_def slice_at_def slice_set_def word_sle_eq)

lemma sint_plus_1:
  "sint (x :: 32 word) < 2 ^ 31 - 1 \<Longrightarrow> sint (x + 1) = sint x + 1"
proof -
  assume a: "sint x < 2 ^ 31 - 1"
  have "- (2 ^ 31) \<le> sint x" using sint_ge [of x] by simp
  with a have "signed_take_bit 31 (sint x + 1) = sint x + 1"
    by (intro signed_take_bit_int_eq_self) auto
  then show ?thesis by (simp add: sint_word_ariths)
qed

lemma sint_ucast_8_32: "sint (ucast (c :: 8 word) :: 32 word) = uint c"
proof -
  have "uint c < 2 ^ 8" using uint_lt2p [of c] by simp
  then have lt: "uint c < 2 ^ 31" by simp
  have ge: "- (2 ^ 31) \<le> uint c"
    by (rule order_trans [of _ 0]) simp_all
  have "signed_take_bit 31 (uint c) = uint c"
    using ge lt by (rule signed_take_bit_int_eq_self)
  then show ?thesis
    by (simp add: signed_ucast_eq)
qed

lemma sint_go_div_2: "sint (go_div h 2) = sint h sdiv 2"
proof -
  have b: "- (2 ^ 31) \<le> sint h" "sint h < 2 ^ 31"
    using sint_ge [of h] sint_lt [of h] by simp_all
  then have "- (2 ^ 31) \<le> sint h sdiv 2 \<and> sint h sdiv 2 < 2 ^ 31"
    by (auto simp add: signed_divide_int_def sgn_if)
  then have "signed_take_bit 31 (sint h sdiv 2) = sint h sdiv 2"
    by (intro signed_take_bit_int_eq_self) auto
  then show ?thesis
    by (simp add: go_div_def sint_sbintrunc')
qed

lemma sint_go_div_2_nonneg: "0 \<le> sint h \<Longrightarrow> sint (go_div h 2) = sint h div 2"
  by (simp add: sint_go_div_2 signed_divide_int_def sgn_if)

lemma bit_and_push_bit: "(0 \<noteq> (w :: 32 word) AND push_bit n 1) = bit w n"
  by (metis bit_iff_and_push_bit_not_eq_0)






section \<open>The framebuffer\<close>

text \<open>
  C4. Round trip of a pixel: on a framebuffer of the configured shape, for every
  coordinate \<open>(x, y)\<close> with \<open>0 \<le> x < Width\<close> and \<open>0 \<le> y < Height\<close>, every colour \<open>c\<close>
  and every bit index \<open>n < 8\<close>, \<open>SetPixel\<close> succeeds and a following \<open>rgbBit\<close> at
  \<open>(x, y, n)\<close> returns bit \<open>n\<close> of the red, green and blue channel of \<open>c\<close>.  The alpha
  channel and the colour depth are arbitrary.
\<close>

theorem SetPixel_then_rgbBit:
  assumes "fb_wf d" and "0 \<le>s x" and "sint x < sint (Width (cfg d))"
    and "0 \<le>s y" and "sint y < sint (Height (cfg d))" and "n < 8"
  shows "\<exists>d'. SetPixel d x y c = Inr d' \<and>
           rgbBit d' (scast x) (scast y) (word_of_nat n) =
             Inr (bit (col_R c) n, bit (col_G c) n, bit (col_B c) n)"
proof -
  from assms have y: "0 \<le> sint y" "nat (sint y) < length (buf d)"
    by (simp_all add: fb_wf_def word_sle_eq)
  then have "buf d ! nat (sint y) \<in> set (buf d)" by simp
  with assms have x: "0 \<le> sint x" "nat (sint x) < length (buf d ! nat (sint y))"
    by (simp_all add: fb_wf_def word_sle_eq)
  let ?line = "(buf d ! nat (sint y))[nat (sint x) := c]"
  let ?d' = "d\<lparr>buf := (buf d)[nat (sint y) := ?line]\<rparr>"
  have set: "SetPixel d x y c = Inr ?d'"
    using y x by (rule SetPixel_in_range)
  have "slice_at (buf ?d') (scast y :: go_int) = Inr ?line"
    using y by (simp add: slice_at_def sint_scast_16_32)
  moreover have "slice_at ?line (scast x :: go_int) = Inr c"
    using x by (simp add: slice_at_def sint_scast_16_32)
  ultimately have "rgbBit ?d' (scast x) (scast y) (word_of_nat n) =
      Inr (bit (col_R c) n, bit (col_G c) n, bit (col_B c) n)"
    using \<open>n < 8\<close> by (rule rgbBit_in_range)
  with set show ?thesis by simp
qed

theorem SetPixel_then_rgbBit_witness:
  "\<exists>d'. SetPixel panel 3 5 orange = Inr d' \<and> rgbBit d' 3 5 2 = Inr (True, True, False)"
proof -
  have "fb_wf panel" by code_simp
  moreover have "(0 :: 16 word) \<le>s 3" "sint (3 :: 16 word) < sint (Width (cfg panel))"
    "(0 :: 16 word) \<le>s 5" "sint (5 :: 16 word) < sint (Height (cfg panel))" "(2 :: nat) < 8"
    by code_simp+
  ultimately show ?thesis
    using SetPixel_then_rgbBit [of panel 3 5 2 orange] by (simp add: orange_def)
qed

text \<open>
  C8. \<open>SetPixel\<close> outside the panel: when \<open>x\<close> or \<open>y\<close> lies outside
  \<open>[0, Width) \<times> [0, Height)\<close> (negative values included), \<open>SetPixel\<close> does not panic,
  every pixel inside the panel reads as before, and on a framebuffer of the configured
  shape the device is returned as it was.
\<close>

theorem SetPixel_out_of_range:
  assumes "\<not> (0 \<le>s x \<and> sint x < sint (Width (cfg d)) \<and>
              0 \<le>s y \<and> sint y < sint (Height (cfg d)))"
  shows "\<exists>d'. SetPixel d x y c = Inr d' \<and>
           (fb_wf d \<longrightarrow> d' = d) \<and>
           (\<forall>i j. 0 \<le>s i \<and> i <s Width (cfg d) \<and> 0 \<le>s j \<and> j <s Height (cfg d) \<longrightarrow>
                  pixel_at d' i j = pixel_at d i j)"
proof -
  consider (same) "SetPixel d x y c = Inr d"
    | (upd) "0 \<le> sint y" "nat (sint y) < length (buf d)"
        "0 \<le> sint x" "nat (sint x) < length (buf d ! nat (sint y))"
        "SetPixel d x y c =
          Inr (d\<lparr>buf := (buf d)[nat (sint y) := (buf d ! nat (sint y))[nat (sint x) := c]]\<rparr>)"
    using SetPixel_cases [of d x y c] by blast
  then show ?thesis
  proof cases
    case same
    then show ?thesis by simp
  next
    case upd
    let ?d' = "d\<lparr>buf := (buf d)[nat (sint y) := (buf d ! nat (sint y))[nat (sint x) := c]]\<rparr>"
    have nwf: "\<not> fb_wf d"
    proof
      assume wf: "fb_wf d"
      have "buf d ! nat (sint y) \<in> set (buf d)"
        using upd(2) by simp
      with wf have "length (buf d ! nat (sint y)) = nat (sint (Width (cfg d)))"
        by (simp add: fb_wf_def)
      with upd(3,4) have "sint x < sint (Width (cfg d))" by simp
      moreover from wf upd(1,2) have "sint y < sint (Height (cfg d))"
        by (simp add: fb_wf_def)
      ultimately show False
        using assms upd(1,3) by (simp add: word_sle_eq)
    qed
    have "pixel_at ?d' i j = pixel_at d i j"
      if "0 \<le>s i \<and> i <s Width (cfg d) \<and> 0 \<le>s j \<and> j <s Height (cfg d)" for i j
    proof (cases "sint j = sint y")
      case True
      with that assms upd(1,3) have "sint i \<noteq> sint x"
        by (auto simp add: word_sle_eq word_sless_alt)
      with upd(1,3) that have "nat (sint i) \<noteq> nat (sint x)"
        by (auto simp add: word_sle_eq)
      with True upd(2) show ?thesis
        by (simp add: pixel_at_def slice_at_def)
    next
      case False
      with upd(1) that have "nat (sint j) \<noteq> nat (sint y)"
        by (auto simp add: word_sle_eq)
      then show ?thesis
        by (simp add: pixel_at_def slice_at_def)
    qed
    with upd(5) nwf show ?thesis by simp
  qed
qed

theorem SetPixel_out_of_range_witness:
  "SetPixel panel (- 1) 40 orange = Inr panel \<and> SetPixel panel 32 0 orange = Inr panel"
proof -
  have wf: "fb_wf panel" by code_simp
  have "\<not> ((0 :: 16 word) \<le>s - 1 \<and> sint (- 1 :: 16 word) < sint (Width (cfg panel)) \<and>
           (0 :: 16 word) \<le>s 40 \<and> sint (40 :: 16 word) < sint (Height (cfg panel)))"
    by code_simp
  moreover have "\<not> ((0 :: 16 word) \<le>s 32 \<and> sint (32 :: 16 word) < sint (Width (cfg panel)) \<and>
           (0 :: 16 word) \<le>s 0 \<and> sint (0 :: 16 word) < sint (Height (cfg panel)))"
    by code_simp
  ultimately show ?thesis
    using wf SetPixel_out_of_range [of "- 1" panel 40 orange]
      SetPixel_out_of_range [of 32 panel 0 orange] by auto
qed

section \<open>Configure\<close>

lemma Configure_flat:
  "Configure d c =
    (if 0 \<noteq> Height c \<and> maxHeight (cfg d) <s Height c then
       Inr (Some ErrInvalidHeight,
            d\<lparr>cfg := (cfg d)\<lparr>Width := (if 0 \<noteq> Width c then Width c else DefaultWidth)\<rparr>\<rparr>)
     else if \<not> fst (GetPinGroupAlignment (hub d) (data_pins d)) \<or>
             snd (GetPinGroupAlignment (hub d) (data_pins d)) = 0 then
       Inr (Some ErrInvalidDataPins, d\<lparr>cfg := chosen_cfg d c\<rparr>)
     else
       (case make_slice (Height (chosen_cfg d c)) [] of
          Inl p \<Rightarrow> Inl p
        | Inr outer \<Rightarrow>
            (case alloc_rows outer (Width (chosen_cfg d c)) of
               Inl p \<Rightarrow> Inl p
             | Inr b \<Rightarrow>
                 Inr (initialize
                        (d\<lparr>cfg := (chosen_cfg d c)\<lparr>clkDataPort :=
                               fst (GetPinGroupAlignment (hub d) [pin_r (up (rgb d)), clk d])\<rparr>,
                           hw := hw d @ map PinConfigureOutput (all_pins d),
                           buf := b\<rparr>)))))"
proof -
  obtain same align where al: "GetPinGroupAlignment (hub d) (data_pins d) = (same, align)"
    by (cases "GetPinGroupAlignment (hub d) (data_pins d)")
  show ?thesis
    unfolding Configure_def chosen_cfg_def
    using al by (simp add: Let_def emit_def cong: sum.case_cong)
qed


lemma alloc_rows_Inr:
  "alloc_rows ls w = Inr b \<Longrightarrow>
     b = replicate (length ls) (replicate (nat (sint w)) transparent_black)"
  by (induction ls arbitrary: b) (auto simp add: make_slice_def split: sum.splits if_splits)

lemma initialize_eq:
  "initialize d =
     (None, d\<lparr>pos := \<lparr>frame = 0, yPr = 1, yUp = numAddrRows (cfg d), yLo = Height (cfg d),
                      bit_i = ucast (ColorDepth (cfg d)), cyc = bitPeriod\<rparr>,
               buf := map (map (\<lambda>_. transparent_black)) (buf d),
               hw := hw d @
                 [PinSet (oen d) True, PinSet (lat d) False, PinSet (clk d) False] @
                 map (\<lambda>p. PinSet p False) (data_pins d @ row d) @
                 concat (replicate (nat (sint (Width (cfg d))))
                           [PinSet (clk d) True, PinSet (clk d) False]) @
                 [PinSet (lat d) True, PinSet (lat d) False, HubInitTimer]\<rparr>)"
  by (simp add: initialize_def Let_def emit_def ClearDisplay_def)

lemma Configure_height_error:
  assumes "0 \<noteq> Height c" and "maxHeight (cfg d) <s Height c"
  shows "Configure d c =
    Inr (Some ErrInvalidHeight,
         d\<lparr>cfg := (cfg d)\<lparr>Width := (if 0 \<noteq> Width c then Width c else DefaultWidth)\<rparr>\<rparr>)"
  using assms by (simp add: Configure_flat)

lemma Configure_success:
  assumes "Configure d c = Inr (None, d')"
  shows "\<exists>b. alloc_rows (replicate (nat (sint (Height (chosen_cfg d c)))) [])
                 (Width (chosen_cfg d c)) = Inr b \<and>
           \<not> Height (chosen_cfg d c) <s 0 \<and>
           d' = snd (initialize
                  (d\<lparr>cfg := (chosen_cfg d c)\<lparr>clkDataPort :=
                         fst (GetPinGroupAlignment (hub d) [pin_r (up (rgb d)), clk d])\<rparr>,
                     hw := hw d @ map PinConfigureOutput (all_pins d),
                     buf := b\<rparr>))"
  using assms
  by (auto simp add: Configure_flat make_slice_def initialize_eq
      split: if_splits sum.splits)

lemma Configure_with_defaults: "Configure d c = Configure d (with_defaults d c)"
proof -
  have "chosen_cfg d (with_defaults d c) = chosen_cfg d c"
    by (simp add: chosen_cfg_def with_defaults_def DefaultWidth_def DefaultColorDepth_def)
  moreover have "(0 \<noteq> Height (with_defaults d c) \<and>
                  maxHeight (cfg d) <s Height (with_defaults d c)) =
                 (0 \<noteq> Height c \<and> maxHeight (cfg d) <s Height c)"
    by (simp add: with_defaults_def)
  moreover have "(if 0 \<noteq> Width (with_defaults d c) then Width (with_defaults d c)
                  else DefaultWidth) = (if 0 \<noteq> Width c then Width c else DefaultWidth)"
    by (simp add: with_defaults_def DefaultWidth_def)
  ultimately show ?thesis
    by (simp only: Configure_flat)
qed

lemma Configure_outcome:
  assumes "Configure d c = Inr (e, d')"
  obtains (height) "0 \<noteq> Height c" and "maxHeight (cfg d) <s Height c"
      and "e = Some ErrInvalidHeight"
      and "d' = d\<lparr>cfg := (cfg d)\<lparr>Width := (if 0 \<noteq> Width c then Width c else DefaultWidth)\<rparr>\<rparr>"
    | (pins) "\<not> (0 \<noteq> Height c \<and> maxHeight (cfg d) <s Height c)"
      and "\<not> fst (GetPinGroupAlignment (hub d) (data_pins d)) \<or>
           snd (GetPinGroupAlignment (hub d) (data_pins d)) = 0"
      and "e = Some ErrInvalidDataPins" and "d' = d\<lparr>cfg := chosen_cfg d c\<rparr>"
    | (ok) "\<not> (0 \<noteq> Height c \<and> maxHeight (cfg d) <s Height c)"
      and "fst (GetPinGroupAlignment (hub d) (data_pins d))"
      and "snd (GetPinGroupAlignment (hub d) (data_pins d)) \<noteq> 0"
      and "e = None"
proof (cases "0 \<noteq> Height c \<and> maxHeight (cfg d) <s Height c")
  case True
  with assms height show ?thesis
    by (simp add: Configure_height_error)
next
  case nh: False
  show ?thesis
  proof (cases "\<not> fst (GetPinGroupAlignment (hub d) (data_pins d)) \<or>
                snd (GetPinGroupAlignment (hub d) (data_pins d)) = 0")
    case True
    with nh assms have "e = Some ErrInvalidDataPins \<and> d' = d\<lparr>cfg := chosen_cfg d c\<rparr>"
      by (simp only: Configure_flat if_True if_False) simp
    with nh True pins show ?thesis by blast
  next
    case False
    with nh assms have "e = None"
      by (simp only: Configure_flat if_True if_False)
         (auto simp add: initialize_eq split: sum.splits)
    with nh False ok show ?thesis by blast
  qed
qed

lemma Configure_returns_cfg:
  assumes "Configure d c = Inr (e, d')"
  shows "Width (cfg d') = (if 0 \<noteq> Width c then Width c else DefaultWidth)"
    and "maxHeight (cfg d') = maxHeight (cfg d)"
    and "e \<noteq> Some ErrInvalidHeight \<Longrightarrow>
           Height (cfg d') = (if 0 \<noteq> Height c then Height c else maxHeight (cfg d))"
    and "e \<noteq> Some ErrInvalidHeight \<Longrightarrow>
           ColorDepth (cfg d') = (if 0 \<noteq> ColorDepth c then ColorDepth c else DefaultColorDepth)"
proof -
  have "Width (cfg d') = (if 0 \<noteq> Width c then Width c else DefaultWidth) \<and>
    maxHeight (cfg d') = maxHeight (cfg d) \<and>
    (e \<noteq> Some ErrInvalidHeight \<longrightarrow>
       Height (cfg d') = (if 0 \<noteq> Height c then Height c else maxHeight (cfg d)) \<and>
       ColorDepth (cfg d') = (if 0 \<noteq> ColorDepth c then ColorDepth c else DefaultColorDepth))"
  using assms
  proof (cases rule: Configure_outcome)
    case height
    then show ?thesis by simp
  next
    case pins
    then show ?thesis by (simp add: chosen_cfg_def)
  next
    case ok
    with assms have "Configure d c = Inr (None, d')" by simp
    from Configure_success [OF this] ok show ?thesis
      by (auto simp add: initialize_eq chosen_cfg_def)
  qed
  then show "Width (cfg d') = (if 0 \<noteq> Width c then Width c else DefaultWidth)"
    and "maxHeight (cfg d') = maxHeight (cfg d)"
    and "e \<noteq> Some ErrInvalidHeight \<Longrightarrow>
           Height (cfg d') = (if 0 \<noteq> Height c then Height c else maxHeight (cfg d))"
    and "e \<noteq> Some ErrInvalidHeight \<Longrightarrow>
           ColorDepth (cfg d') = (if 0 \<noteq> ColorDepth c then ColorDepth c else DefaultColorDepth)"
    by simp_all
qed

lemma Configure_height_error_only:
  assumes "Configure d c = Inr (Some ErrInvalidHeight, d')"
  shows "0 \<noteq> Height c \<and> maxHeight (cfg d) <s Height c"
  using assms by (cases rule: Configure_outcome) simp_all

lemma Configure_pins_error_iff:
  assumes "\<not> (0 \<noteq> Height c \<and> maxHeight (cfg d) <s Height c)"
  shows "(\<exists>d'. Configure d c = Inr (Some ErrInvalidDataPins, d')) \<longleftrightarrow>
         (\<not> fst (GetPinGroupAlignment (hub d) (data_pins d)) \<or>
          snd (GetPinGroupAlignment (hub d) (data_pins d)) = 0)"
proof
  assume "\<exists>d'. Configure d c = Inr (Some ErrInvalidDataPins, d')"
  then obtain d' where "Configure d c = Inr (Some ErrInvalidDataPins, d')" ..
  then show "\<not> fst (GetPinGroupAlignment (hub d) (data_pins d)) \<or>
          snd (GetPinGroupAlignment (hub d) (data_pins d)) = 0"
    by (cases rule: Configure_outcome) simp_all
next
  assume "\<not> fst (GetPinGroupAlignment (hub d) (data_pins d)) \<or>
          snd (GetPinGroupAlignment (hub d) (data_pins d)) = 0"
  with assms have "Configure d c = Inr (Some ErrInvalidDataPins, d\<lparr>cfg := chosen_cfg d c\<rparr>)"
    by (simp only: Configure_flat if_True if_False)
  then show "\<exists>d'. Configure d c = Inr (Some ErrInvalidDataPins, d')" ..
qed

lemma Configure_pins_error_state:
  assumes "Configure d c = Inr (Some ErrInvalidDataPins, d')"
  shows "hw d' = hw d \<and> buf d' = buf d \<and> pos d' = pos d \<and> val d' = val d"
  using assms by (cases rule: Configure_outcome) simp_all

text \<open>
  C10. After every call of \<open>Configure\<close> that returns \<open>nil\<close> the framebuffer has
  exactly \<open>Height\<close> rows of \<open>Width\<close> pixels, all of them transparent black
  \<open>{0, 0, 0, 0}\<close>, whatever it held before.
\<close>

theorem Configure_clears_framebuffer:
  assumes "Configure d c = Inr (None, d')"
  shows "buf d' = replicate (nat (sint (Height (cfg d'))))
                    (replicate (nat (sint (Width (cfg d')))) transparent_black)"
proof -
  from Configure_success [OF assms] obtain b where
    b: "alloc_rows (replicate (nat (sint (Height (chosen_cfg d c)))) [])
          (Width (chosen_cfg d c)) = Inr b"
    and d': "d' = snd (initialize
                  (d\<lparr>cfg := (chosen_cfg d c)\<lparr>clkDataPort :=
                         fst (GetPinGroupAlignment (hub d) [pin_r (up (rgb d)), clk d])\<rparr>,
                     hw := hw d @ map PinConfigureOutput (all_pins d),
                     buf := b\<rparr>))"
    by blast
  from alloc_rows_Inr [OF b] d' show ?thesis
    by (simp add: initialize_eq)
qed

theorem Configure_clears_framebuffer_witness:
  "buf panel = replicate 16 (replicate 32 transparent_black)"
proof -
  have "case Configure panel_new panel_cfg of Inr (None, d') \<Rightarrow> True | _ \<Rightarrow> False"
    by code_simp
  then obtain d' where ok: "Configure panel_new panel_cfg = Inr (None, d')"
    by (auto split: sum.splits option.splits prod.splits)
  then have p: "panel = d'" by (simp add: panel_def)
  have "Height (cfg panel) = 16" "Width (cfg panel) = 32" by code_simp+
  with Configure_clears_framebuffer [OF ok] p show ?thesis by simp
qed

text \<open>
  C9. Unspecified fields: a call of \<open>Configure\<close> with a configuration \<open>c\<close> behaves
  exactly as the call with every zero field of \<open>c\<close> replaced by its default (width 64,
  colour depth 4, height \<open>maxHeight\<close>, which \<open>New\<close> sets to \<open>2 ^ (N + 1)\<close> for \<open>N\<close>
  row-address lines).  So a zero field never causes an error (a zero height never gives
  \<open>ErrInvalidHeight\<close>), and whenever \<open>Configure\<close> returns, a zero width has become 64,
  a zero height \<open>maxHeight\<close>, and a zero colour depth 4 unless the call was rejected for
  its height before the colour depth was looked at.
\<close>

theorem Configure_defaults:
  "Configure d c = Configure d (with_defaults d c) \<and>
   DefaultWidth = 64 \<and> DefaultColorDepth = 4 \<and>
   maxHeight (cfg (New h p1 p2 p3 rgb6 rows)) = 2 ^ (length rows + 1) \<and>
   (\<forall>e d'. Configure d c = Inr (e, d') \<longrightarrow>
      maxHeight (cfg d') = maxHeight (cfg d) \<and>
      (Width c = 0 \<longrightarrow> Width (cfg d') = DefaultWidth) \<and>
      (Height c = 0 \<longrightarrow> e \<noteq> Some ErrInvalidHeight \<and> Height (cfg d') = maxHeight (cfg d)) \<and>
      (ColorDepth c = 0 \<and> e \<noteq> Some ErrInvalidHeight \<longrightarrow>
         ColorDepth (cfg d') = DefaultColorDepth))"
proof (intro conjI allI impI)
  show "Configure d c = Configure d (with_defaults d c)"
    by (rule Configure_with_defaults)
  show "DefaultWidth = 64" by (simp add: DefaultWidth_def)
  show "DefaultColorDepth = 4" by (simp add: DefaultColorDepth_def)
  show "maxHeight (cfg (New h p1 p2 p3 rgb6 rows)) = 2 ^ (length rows + 1)"
    by (cases rgb6) (simp add: New_def push_bit_eq_mult)
next
  fix e d' assume r: "Configure d c = Inr (e, d')"
  from Configure_returns_cfg(2) [OF r] show "maxHeight (cfg d') = maxHeight (cfg d)" .
  { assume "Width c = 0"
    with Configure_returns_cfg(1) [OF r] show "Width (cfg d') = DefaultWidth" by simp }
  { assume z: "Height c = 0"
    show nh: "e \<noteq> Some ErrInvalidHeight"
    proof
      assume "e = Some ErrInvalidHeight"
      with r have "Configure d c = Inr (Some ErrInvalidHeight, d')" by simp
      from Configure_height_error_only [OF this] z show False by simp
    qed
    from Configure_returns_cfg(3) [OF r nh] z
    show "Height (cfg d') = maxHeight (cfg d)" by simp }
  { assume "ColorDepth c = 0 \<and> e \<noteq> Some ErrInvalidHeight"
    with Configure_returns_cfg(4) [OF r] show "ColorDepth (cfg d') = DefaultColorDepth"
      by simp }
qed

theorem Configure_defaults_witness:
  "\<exists>d'. Configure panel_new zero_cfg = Inr (None, d') \<and>
        Width (cfg d') = 64 \<and> Height (cfg d') = 16 \<and> ColorDepth (cfg d') = 4"
proof -
  have "case Configure panel_new zero_cfg of Inr (None, d') \<Rightarrow> True | _ \<Rightarrow> False"
    by code_simp
  then obtain d' where ok: "Configure panel_new zero_cfg = Inr (None, d')"
    by (auto split: sum.splits option.splits prod.splits)
  have z: "Width zero_cfg = 0" "Height zero_cfg = 0" "ColorDepth zero_cfg = 0"
    "maxHeight (cfg panel_new) = 16"
    by code_simp+
  from Configure_defaults [of panel_new zero_cfg] ok z
  have "Width (cfg d') = 64 \<and> Height (cfg d') = 16 \<and> ColorDepth (cfg d') = 4"
    by (simp add: DefaultWidth_def DefaultColorDepth_def)
  with ok show ?thesis by blast
qed

text \<open>
  C3. A rejected height: the 32 x 16 panel on three row-address lines
  (\<open>maxHeight = 16\<close>) is configured again with width 64 and height 18.  \<open>Configure\<close>
  returns \<open>ErrInvalidHeight\<close>, but the width has been overwritten with 64 before the
  height was checked, while the framebuffer keeps its 32 columns: the next run of
  \<open>handleRow\<close> reads column 32 and panics.
\<close>

theorem Configure_rejected_height_overwrites_width:
  "Width (cfg panel) = 32 \<and> maxHeight (cfg panel) = 16 \<and>
   length (buf panel) = 16 \<and> length (hd (buf panel)) = 32 \<and>
   Configure panel (panel_cfg\<lparr>Width := 64, Height := 18\<rparr>) =
     Inr (Some ErrInvalidHeight, panel\<lparr>cfg := (cfg panel)\<lparr>Width := 64\<rparr>\<rparr>) \<and>
   handleRow (panel\<lparr>cfg := (cfg panel)\<lparr>Width := 64\<rparr>\<rparr>) = Inl IndexOutOfRange"
proof -
  have a: "Width (cfg panel) = 32" "maxHeight (cfg panel) = 16"
    "length (buf panel) = 16" "length (hd (buf panel)) = 32"
    by code_simp+
  have "Configure panel (panel_cfg\<lparr>Width := 64, Height := 18\<rparr>) =
     Inr (Some ErrInvalidHeight, panel\<lparr>cfg := (cfg panel)\<lparr>Width := 64\<rparr>\<rparr>)"
    by (subst Configure_height_error) (simp_all add: panel_cfg_def a)
  moreover have "case handleRow (panel\<lparr>cfg := (cfg panel)\<lparr>Width := 64\<rparr>\<rparr>) of
      Inl IndexOutOfRange \<Rightarrow> True | _ \<Rightarrow> False"
    by code_simp
  then have "handleRow (panel\<lparr>cfg := (cfg panel)\<lparr>Width := 64\<rparr>\<rparr>) = Inl IndexOutOfRange"
    by (auto split: sum.splits panic.splits)
  ultimately show ?thesis using a by simp
qed

theorem Configure_rejected_height_overwrites_width_witness:
  "\<exists>d'. Configure panel (panel_cfg\<lparr>Width := 64, Height := 18\<rparr>) = Inr (Some ErrInvalidHeight, d') \<and>
        Width (cfg d') = 64 \<and> Width (cfg panel) = 32 \<and> buf d' = buf panel \<and>
        handleRow d' = Inl IndexOutOfRange"
  using Configure_rejected_height_overwrites_width by simp

text \<open>
  C5. The data pins: when the requested height passes the height check (it is zero or
  at most \<open>maxHeight\<close>), \<open>Configure\<close> returns \<open>ErrInvalidDataPins\<close> if and only if the
  alignment query over the six RGB data lines reports that they do not share one port or
  that the offset of the first line is zero; and when it does, no hardware call has been
  made (the timer is not started) and the framebuffer, the scan state and the timer
  position are as before.
\<close>

theorem Configure_invalid_data_pins:
  assumes "Height c = 0 \<or> Height c \<le>s maxHeight (cfg d)"
  shows "((\<exists>d'. Configure d c = Inr (Some ErrInvalidDataPins, d')) \<longleftrightarrow>
           (\<not> fst (GetPinGroupAlignment (hub d) (data_pins d)) \<or>
            snd (GetPinGroupAlignment (hub d) (data_pins d)) = 0)) \<and>
         (\<forall>d'. Configure d c = Inr (Some ErrInvalidDataPins, d') \<longrightarrow>
            hw d' = hw d \<and> buf d' = buf d \<and> pos d' = pos d \<and> val d' = val d)"
proof -
  from assms have "\<not> (0 \<noteq> Height c \<and> maxHeight (cfg d) <s Height c)"
    by (auto simp add: word_sle_eq word_sless_alt)
  from Configure_pins_error_iff [OF this] show ?thesis
    using Configure_pins_error_state [of d c] by blast
qed

theorem Configure_invalid_data_pins_witness:
  "\<exists>d'. Configure spread_new panel_cfg = Inr (Some ErrInvalidDataPins, d') \<and>
        hw d' = hw spread_new \<and> buf d' = [] \<and> pos d' = pos spread_new"
proof -
  have h: "Height panel_cfg = 0 \<or> Height panel_cfg \<le>s maxHeight (cfg spread_new)"
    by code_simp
  have q: "\<not> fst (GetPinGroupAlignment (hub spread_new) (data_pins spread_new))"
    by code_simp
  have b: "buf spread_new = []" by code_simp
  from Configure_invalid_data_pins [OF h] q b show ?thesis by auto
qed

text \<open>
  C5, as stated without the condition on the height: the equivalence fails, with data lines
  spread over several ports and a height of 18 on three row-address lines, the call is
  rejected for its height and never returns \<open>ErrInvalidDataPins\<close>.
\<close>

theorem Configure_invalid_data_pins_counterexample:
  "\<not> fst (GetPinGroupAlignment (hub spread_new) (data_pins spread_new)) \<and>
   (\<forall>d'. Configure spread_new (panel_cfg\<lparr>Height := 18\<rparr>) \<noteq> Inr (Some ErrInvalidDataPins, d'))"
proof -
  have "maxHeight (cfg spread_new) = 16" by code_simp
  then have "Configure spread_new (panel_cfg\<lparr>Height := 18\<rparr>) =
     Inr (Some ErrInvalidHeight,
       spread_new\<lparr>cfg := (cfg spread_new)\<lparr>Width :=
         (if 0 \<noteq> Width (panel_cfg\<lparr>Height := 18\<rparr>) then Width (panel_cfg\<lparr>Height := 18\<rparr>)
          else DefaultWidth)\<rparr>\<rparr>)"
    by (intro Configure_height_error) (simp_all add: panel_cfg_def)
  moreover have "\<not> fst (GetPinGroupAlignment (hub spread_new) (data_pins spread_new))"
    by code_simp
  ultimately show ?thesis by simp
qed

lemma Configure_configured:
  assumes "Configure d c = Inr (None, dc)"
  shows "fb_wf dc" and "numAddrRows (cfg dc) = go_div (Height (cfg dc)) 2"
    and "pos dc = \<lparr>frame = 0, yPr = 1, yUp = numAddrRows (cfg dc), yLo = Height (cfg dc),
                    bit_i = ucast (ColorDepth (cfg dc)), cyc = bitPeriod\<rparr>"
proof -
  from Configure_success [OF assms] obtain b where
    b: "alloc_rows (replicate (nat (sint (Height (chosen_cfg d c)))) [])
          (Width (chosen_cfg d c)) = Inr b"
    and dc: "dc = snd (initialize
                  (d\<lparr>cfg := (chosen_cfg d c)\<lparr>clkDataPort :=
                         fst (GetPinGroupAlignment (hub d) [pin_r (up (rgb d)), clk d])\<rparr>,
                     hw := hw d @ map PinConfigureOutput (all_pins d),
                     buf := b\<rparr>))"
    by blast
  from alloc_rows_Inr [OF b] dc show "fb_wf dc"
    by (simp add: initialize_eq fb_wf_def)
  from dc show "numAddrRows (cfg dc) = go_div (Height (cfg dc)) 2"
    by (simp add: initialize_eq chosen_cfg_def)
  from dc show "pos dc = \<lparr>frame = 0, yPr = 1, yUp = numAddrRows (cfg dc),
      yLo = Height (cfg dc), bit_i = ucast (ColorDepth (cfg dc)), cyc = bitPeriod\<rparr>"
    by (simp add: initialize_eq)
qed

text \<open>
  C6. The seed of the previous row: after every successful \<open>Configure\<close> the scan
  state holds \<open>yPr = 1\<close>, and for every panel of height 4 or more this is the index of a
  real row pair: \<open>0 \<le> 1 < numAddrRows\<close>.
\<close>

theorem initialize_seeds_row_one:
  assumes "Configure d c = Inr (None, d')" and "4 \<le>s Height (cfg d')"
  shows "yPr (pos d') = 1 \<and> 0 \<le>s yPr (pos d') \<and> yPr (pos d') <s numAddrRows (cfg d')"
proof -
  note c = Configure_configured [OF assms(1)]
  from assms(2) have h: "4 \<le> sint (Height (cfg d'))" by (simp add: word_sle_eq)
  with c(2) have "sint (numAddrRows (cfg d')) = sint (Height (cfg d')) div 2"
    by (simp add: sint_go_div_2_nonneg)
  with h have "1 < sint (numAddrRows (cfg d'))" by simp
  then show ?thesis
    by (simp add: c(3) word_sle_eq word_sless_alt)
qed

theorem initialize_seeds_row_one_witness:
  "yPr (pos panel) = 1 \<and> numAddrRows (cfg panel) = 8 \<and>
   0 \<le>s yPr (pos panel) \<and> yPr (pos panel) <s numAddrRows (cfg panel)"
proof -
  have "case Configure panel_new panel_cfg of Inr (None, d') \<Rightarrow> True | _ \<Rightarrow> False"
    by code_simp
  then obtain d' where ok: "Configure panel_new panel_cfg = Inr (None, d')"
    by (auto split: sum.splits option.splits prod.splits)
  then have p: "panel = d'" by (simp add: panel_def)
  have h: "4 \<le>s Height (cfg panel)" "numAddrRows (cfg panel) = 8" by code_simp+
  from initialize_seeds_row_one [OF ok] p h show ?thesis
    by (simp add: word_sle_eq word_sless_alt)
qed

section \<open>Row selection\<close>

lemma set_row_pins_eq:
  "set_row_pins ps i rw = map (\<lambda>k. PinSet (ps ! k) (bit rw (i + k))) [0..<length ps]"
proof (induction ps arbitrary: i)
  case Nil
  show ?case by simp
next
  case (Cons p ps)
  have "map (\<lambda>k. PinSet ((p # ps) ! k) (bit rw (i + k))) [0..<length (p # ps)] =
        PinSet p (bit rw i) # map (\<lambda>k. PinSet (ps ! k) (bit rw (Suc i + k))) [0..<length ps]"
    by (simp add: map_upt_Suc del: upt_Suc)
  with Cons show ?case
    by (simp add: bit_iff_and_push_bit_not_eq_0 del: upt_Suc)
qed

text \<open>
  C7. \<open>selectRow\<close> for a row \<open>rw0\<close> below the height: let \<open>rw\<close> be the
  normalised row (\<open>rw0\<close> itself, or \<open>rw0 - numAddrRows\<close> from \<open>numAddrRows\<close> on).  If
  \<open>rw\<close> equals \<open>yPr\<close> the device is unchanged: nothing is written and \<open>yPr\<close> stays.
  Otherwise \<open>yPr\<close> becomes \<open>rw\<close> and the address is written, either by one \<open>SetRow rw\<close>
  or line by line, line \<open>i\<close> high exactly when bit \<open>i\<close> of \<open>rw\<close> is set.  So, on a
  device that has an address line or a common address port, the hardware log grows if
  and only if \<open>rw\<close> differs from \<open>yPr\<close>.
\<close>

theorem selectRow_writes_on_change:
  assumes "rw0 <s Height (cfg d)"
  defines "rw \<equiv> (if numAddrRows (cfg d) \<le>s rw0 then rw0 - numAddrRows (cfg d) else rw0)"
  shows "(rw = yPr (pos d) \<longrightarrow> selectRow d rw0 = d) \<and>
         (rw \<noteq> yPr (pos d) \<longrightarrow>
            selectRow d rw0 =
              d\<lparr>pos := (pos d)\<lparr>yPr := rw\<rparr>,
                hw := hw d @
                  (if oneAddrPort (cfg d) then [HubSetRow rw]
                   else map (\<lambda>i. PinSet (row d ! i) (bit rw i)) [0..<length (row d)])\<rparr>) \<and>
         (oneAddrPort (cfg d) \<or> row d \<noteq> [] \<longrightarrow>
            (hw (selectRow d rw0) \<noteq> hw d) = (rw \<noteq> yPr (pos d)))"
proof -
  from assms(1) have "\<not> Height (cfg d) \<le>s rw0"
    by (simp add: word_sle_eq word_sless_alt)
  then show ?thesis
    by (auto simp add: selectRow_def Let_def emit_def set_row_pins_eq rw_def)
qed

theorem selectRow_writes_on_change_witness:
  "hw (selectRow tiny_started 3) = hw tiny_started @ [PinSet 10 True, PinSet 11 False] \<and>
   yPr (pos (selectRow tiny_started 3)) = 1 \<and>
   hw (selectRow tiny_started 2) = hw tiny_started \<and>
   yPr (pos (selectRow tiny_started 2)) = yPr (pos tiny_started)"
proof -
  have h: "(3 :: go_int) <s Height (cfg tiny_started)" "(2 :: go_int) <s Height (cfg tiny_started)"
    by code_simp+
  have f: "numAddrRows (cfg tiny_started) = 2" "yPr (pos tiny_started) = 0"
    "\<not> oneAddrPort (cfg tiny_started)" "row tiny_started = [10, 11]"
    by code_simp+
  from selectRow_writes_on_change [OF h(1)] selectRow_writes_on_change [OF h(2)] f
  show ?thesis by (simp add: upt_rec [of 0] upt_rec [of 1] upt_rec [of 2])
qed

section \<open>The scan state\<close>

lemma numAddrRows_le:
  assumes "numAddrRows (cfg d) = go_div (Height (cfg d)) 2"
  shows "sint (numAddrRows (cfg d)) < 2 ^ 30"
proof -
  have "sint (Height (cfg d)) < 2 ^ 31"
    using sint_lt [of "Height (cfg d)"] by simp
  then have "sint (Height (cfg d)) sdiv 2 < 2 ^ 30"
    by (auto simp add: signed_divide_int_def sgn_if)
  with assms show ?thesis by (simp add: sint_go_div_2)
qed



text \<open>
  C2, as stated for every colour depth.  Without the bound on the colour depth the
  fourth invariant is lost: the period is a
  \<open>uint32\<close>, and \<open>2000 * 2 ^ 22\<close> does not fit.  With colour depth 23, the step from
  bitplane 21 to bitplane 22 doubles the period 4194304000 to 4093640704 modulo
  \<open>2 ^ 32\<close>.  The state \<open>deep_at_21\<close> is the one that the 1 x 2 panel reaches 21
  interrupts after the start of its first frame.
\<close>

lemma deep_at_21_reached:
  "case steps 21 deep_started of
     Inr s \<Rightarrow> pos s = pos deep_at_21 \<and> cfg s = cfg deep_at_21 \<and> buf s = buf deep_at_21
   | Inl p \<Rightarrow> False"
  by code_simp


section \<open>One interrupt\<close>


lemma increment_only_pos: "increment d = d\<lparr>pos := pos (increment d)\<rparr>"
  by (simp add: increment_def Let_def)


lemma emit_fields [simp]:
  "cfg (emit d es) = cfg d" "buf (emit d es) = buf d" "pos (emit d es) = pos d"
  "clk (emit d es) = clk d" "oen (emit d es) = oen d" "lat (emit d es) = lat d"
  "row (emit d es) = row d" "hw (emit d es) = hw d @ es"
  by (simp_all add: emit_def)

lemma emit_emit: "emit (emit d es) fs = emit d (es @ fs)"
  by (simp add: emit_def)

lemma emit_Nil: "emit d [] = d"
  by (simp add: emit_def)

lemma column_events_emit: "column_events (emit d es) = column_events d"
  by (rule ext) (simp add: column_events_def Let_def)

lemma fb_wf_emit: "fb_wf (emit d es) = fb_wf d"
  by (simp add: fb_wf_def)

lemma rgbBit_ok:
  assumes wf: "fb_wf d"
    and y: "0 \<le> sint y" "sint y < sint (Height (cfg d))"
    and x: "x < nat (sint (Width (cfg d)))"
    and n: "0 \<le> sint n"
  shows "rgbBit d (word_of_nat x) y n =
     Inr (bit (widen_channel (col_R (buf d ! nat (sint y) ! x))) (nat (sint n)),
          bit (widen_channel (col_G (buf d ! nat (sint y) ! x))) (nat (sint n)),
          bit (widen_channel (col_B (buf d ! nat (sint y) ! x))) (nat (sint n)))"
proof -
  from wf y have yl: "nat (sint y) < length (buf d)"
    by (simp add: fb_wf_def)
  then have "buf d ! nat (sint y) \<in> set (buf d)" by simp
  with wf have len: "length (buf d ! nat (sint y)) = nat (sint (Width (cfg d)))"
    by (simp add: fb_wf_def)
  have "sint (Width (cfg d)) < 2 ^ 31"
    using sint_lt [of "Width (cfg d)"] by simp
  with x have "x < 2 ^ 31" by simp
  then have sx: "sint (word_of_nat x :: 32 word) = int x"
    by (rule sint_word_of_nat32)
  from y yl have a: "slice_at (buf d) y = Inr (buf d ! nat (sint y))"
    by (simp add: slice_at_def)
  from x have "int x < sint (Width (cfg d))"
    by (simp add: zless_nat_eq_int_zless)
  with len sx have b: "slice_at (buf d ! nat (sint y)) (word_of_nat x :: 32 word) =
      Inr (buf d ! nat (sint y) ! x)"
    by (simp add: slice_at_def)
  from n have s: "shl1 n = Inr (push_bit (nat (sint n)) 1)"
    by (simp add: shl1_def word_sless_alt)
  show ?thesis
    by (simp only: rgbBit_def a b s RGBA_RGBA_def sum.case prod.case bit_and_push_bit)
qed

lemma shift_columns_ok:
  "fb_wf d \<Longrightarrow>
   0 \<le> sint (yUp (pos d)) \<Longrightarrow> sint (yUp (pos d)) < sint (Height (cfg d)) \<Longrightarrow>
   0 \<le> sint (yLo (pos d)) \<Longrightarrow> sint (yLo (pos d)) < sint (Height (cfg d)) \<Longrightarrow>
   0 \<le> sint (bit_i (pos d)) \<Longrightarrow>
   \<forall>x \<in> set xs. x < nat (sint (Width (cfg d))) \<Longrightarrow>
   shift_columns d xs = Inr (emit d (concat (map (column_events d) xs)))"
proof (induction xs arbitrary: d)
  case Nil
  show ?case by (simp add: emit_Nil)
next
  case (Cons x xs)
  from Cons.prems have x: "x < nat (sint (Width (cfg d)))" by simp
  note up = rgbBit_ok [OF Cons.prems(1) Cons.prems(2) Cons.prems(3) x Cons.prems(6)]
  note low = rgbBit_ok [OF Cons.prems(1) Cons.prems(4) Cons.prems(5) x Cons.prems(6)]
  have step: "shift_columns d (x # xs) = shift_columns (emit d (column_events d x)) xs"
    by (simp add: up low column_events_def Let_def)
  have "shift_columns (emit d (column_events d x)) xs =
      Inr (emit (emit d (column_events d x))
             (concat (map (column_events (emit d (column_events d x))) xs)))"
    using Cons.prems by (intro Cons.IH) (simp_all add: fb_wf_emit)
  with step show ?case
    by (simp only: emit_emit column_events_emit list.map concat.simps)
qed

lemma selectRow_after_emit:
  "selectRow (emit d es) rw =
     emit (d\<lparr>pos := (pos d)\<lparr>yPr := yPr (pos (selectRow d rw))\<rparr>\<rparr>)
          (es @ drop (length (hw d)) (hw (selectRow d rw)))"
  by (auto simp add: selectRow_def Let_def emit_def)

lemma increment_emit: "increment (emit d es) = emit (increment d) es"
  by (simp add: increment_def Let_def emit_def)

lemma increment_yPr:
  "increment (d\<lparr>pos := (pos d)\<lparr>yPr := p\<rparr>\<rparr>) =
     (increment d)\<lparr>pos := (pos (increment d))\<lparr>yPr := p\<rparr>\<rparr>"
  by (simp add: increment_def Let_def)

lemma handleRow_unfold:
  "handleRow d =
     shift_columns
       (emit ((increment d)\<lparr>pos := (pos (increment d))\<lparr>yPr := yPr (pos (selectRow d (yUp (pos d))))\<rparr>\<rparr>)
          ([HubPauseTimer, HubResumeTimer 0 (cyc (pos d)), PinSet (oen d) True, PinSet (lat d) True]
           @ addr_events d @ [PinSet (lat d) False, PinSet (oen d) False]))
       [0..<nat (sint (Width (cfg d)))]"
proof -
  let ?e1 = "[HubPauseTimer, HubResumeTimer 0 (cyc (pos d)), PinSet (oen d) True, PinSet (lat d) True]"
  let ?p = "yPr (pos (selectRow d (yUp (pos d))))"
  have "selectRow (emit d ?e1) (yUp (pos d)) =
      emit (d\<lparr>pos := (pos d)\<lparr>yPr := ?p\<rparr>\<rparr>) (?e1 @ addr_events d)"
    by (simp only: selectRow_after_emit addr_events_def)
  then have "increment (selectRow (emit d ?e1) (yUp (pos d))) =
      emit ((increment d)\<lparr>pos := (pos (increment d))\<lparr>yPr := ?p\<rparr>\<rparr>) (?e1 @ addr_events d)"
    by (simp add: increment_emit increment_yPr)
  moreover have "cfg (increment d) = cfg d"
    by (subst increment_only_pos) simp
  ultimately show ?thesis
    by (simp add: handleRow_def Let_def emit_emit)
qed








lemma increment_fields [simp]:
  "cfg (increment d) = cfg d" "buf (increment d) = buf d" "hw (increment d) = hw d"
  "clk (increment d) = clk d"
  by (simp_all add: increment_def Let_def)


lemma frame_start_transfer:
  assumes "cfg b = cfg a" and "yUp (pos b) = yUp (pos a)" and "yLo (pos b) = yLo (pos a)"
    and "bit_i (pos b) = bit_i (pos a)" and "cyc (pos b) = cyc (pos a)"
  shows "frame_start b = frame_start a"
  using assms by (simp add: frame_start_def)


section \<open>One frame\<close>


lemma increment_seed:
  assumes rows: "numAddrRows (cfg d) = go_div (Height (cfg d)) 2"
    and "0 \<le> sint (numAddrRows (cfg d))"
    and "yUp (pos d) = numAddrRows (cfg d)" and "bit_i (pos d) = ucast (ColorDepth (cfg d))"
  shows "frame_start (increment d) \<and> frame (pos (increment d)) = frame (pos d) + 1"
proof -
  have N: "sint (numAddrRows (cfg d)) < 2 ^ 30" using rows by (rule numAddrRows_le)
  then have n1: "sint (numAddrRows (cfg d) + 1) = sint (numAddrRows (cfg d)) + 1"
    by (simp add: sint_plus_1)
  have "uint (ColorDepth (cfg d)) < 2 ^ 8"
    using uint_lt2p [of "ColorDepth (cfg d)"] by simp
  then have "sint (ucast (ColorDepth (cfg d)) :: 32 word) < 2 ^ 31 - 1"
    by (simp add: sint_ucast_8_32)
  then have d1: "sint ((ucast (ColorDepth (cfg d)) :: 32 word) + 1) =
      uint (ColorDepth (cfg d)) + 1"
    by (simp add: sint_plus_1 sint_ucast_8_32)
  from assms(3,4) show ?thesis
    by (simp add: increment_def frame_start_def Let_def word_sle_eq n1 d1 sint_ucast_8_32)
qed

text \<open>
  The first interrupt after a successful \<open>Configure\<close> of a panel with a row pair brings
  the scan state to the start of frame 1, so every later state of the engine lies in a
  frame as described below.
\<close>

lemma first_interrupt:
  assumes conf: "Configure d c = Inr (None, dc)" and height: "2 \<le>s Height (cfg dc)"
  shows "\<exists>d1. handleRow dc = Inr d1 \<and> same_panel dc d1 \<and> frame_start d1 \<and>
           frame (pos d1) = 1"
proof -
  note c = Configure_configured [OF conf]
  from height have h: "2 \<le> sint (Height (cfg dc))" by (simp add: word_sle_eq)
  with c(2) have n: "sint (numAddrRows (cfg dc)) = sint (Height (cfg dc)) div 2"
    by (simp add: sint_go_div_2_nonneg)
  with h have n1: "1 \<le> sint (numAddrRows (cfg dc))"
    and n2: "2 * sint (numAddrRows (cfg dc)) \<le> sint (Height (cfg dc))"
    by simp_all
  have "frame_start (increment dc) \<and> frame (pos (increment dc)) = frame (pos dc) + 1"
    using c(2) n1 by (intro increment_seed) (simp_all add: c(3))
  then have fs: "frame_start (increment dc)" and fr: "frame (pos (increment dc)) = 1"
    by (simp_all add: c(3))
  let ?E = "[HubPauseTimer, HubResumeTimer 0 (cyc (pos dc)), PinSet (oen dc) True,
             PinSet (lat dc) True]
        @ addr_events dc @ [PinSet (lat dc) False, PinSet (oen dc) False]"
  let ?p = "yPr (pos (selectRow dc (yUp (pos dc))))"
  let ?t = "emit ((increment dc)\<lparr>pos := (pos (increment dc))\<lparr>yPr := ?p\<rparr>\<rparr>) ?E"
  let ?cols = "[0..<nat (sint (Width (cfg dc)))]"
  let ?d1 = "emit ?t (concat (map (column_events ?t) ?cols))"
  have inc: "increment dc = dc\<lparr>pos := pos (increment dc)\<rparr>"
    by (rule increment_only_pos)
  have fst: "frame_start ?t = frame_start (increment dc)"
    by (rule frame_start_transfer) simp_all
  with fs have t0: "frame_start ?t" by simp
  have wf_t: "fb_wf ?t" using c(1) by (simp add: fb_wf_def)
  from t0 n1 n2 have rng: "0 \<le> sint (yUp (pos ?t))" "sint (yUp (pos ?t)) < sint (Height (cfg ?t))"
    "0 \<le> sint (yLo (pos ?t))" "sint (yLo (pos ?t)) < sint (Height (cfg ?t))"
    "0 \<le> sint (bit_i (pos ?t))"
    by (simp_all add: frame_start_def)
  have "shift_columns ?t ?cols = Inr ?d1"
    using wf_t rng by (rule shift_columns_ok) simp
  then have run: "handleRow dc = Inr ?d1"
    by (simp only: handleRow_unfold)
  have sp: "same_panel dc ?d1"
    by (subst (2) inc) (simp add: same_panel_def emit_def)
  have "frame_start ?d1 = frame_start (increment dc)"
    by (rule frame_start_transfer) simp_all
  with fs have fs1: "frame_start ?d1" by simp
  have fr1: "frame (pos ?d1) = 1" using fr by simp
  show ?thesis
    by (rule exI [of _ ?d1], intro conjI) (rule run sp fs1 fr1)+
qed




end
